theory Spec2Isabelle
  imports Main
begin

section \<open>Card model\<close>

text \<open>
  The card-sorting game exists twice in the repository: a DOM version
  (\<^verbatim>\<open>CardSortingGame.tsx\<close>) and a 3D version (\<^verbatim>\<open>CardSortingGame3D.tsx\<close>).
  Both share the card model, the rule type and the statistics record.
  The string-literal unions of the source are datatypes, in the order of the source.
\<close>

datatype Color = Red | Blue | Green | Yellow

datatype Shape = Circle | Square | Triangle | Star

datatype Size = Small | Medium | Large

datatype Rule = RuleColor | RuleShape | RuleNumber | RuleSize

text \<open>
  \<^verbatim>\<open>interface Card { id; color; shape; number; size }\<close>. The identifier is a number in
  the DOM version and a uuid string in the 3D version, so its type is a parameter. The
  fields \<^verbatim>\<open>id\<close> and \<^verbatim>\<open>size\<close> carry a suffix, since HOL has constants of these names.
  Every card the code builds has a whole number in the field \<^verbatim>\<open>number\<close>, so the field
  is an integer and \<^verbatim>\<open>===\<close> on it is equality.
\<close>

record 'i Card =
  id_card :: 'i
  color :: Color
  shape :: Shape
  number :: int
  size_card :: Size

text \<open>
  The value read by the indexed access \<^verbatim>\<open>card[rule]\<close>: a colour, a shape, a number or
  a size, according to the key.
\<close>

datatype Value = ColorValue Color | ShapeValue Shape | NumberValue int | SizeValue Size

fun card_prop :: "'i Card \<Rightarrow> Rule \<Rightarrow> Value" where
  "card_prop c RuleColor = ColorValue (color c)"
| "card_prop c RuleShape = ShapeValue (shape c)"
| "card_prop c RuleNumber = NumberValue (number c)"
| "card_prop c RuleSize = SizeValue (size_card c)"

text \<open>\<^verbatim>\<open>checkMatch = (c1, c2, rule) => c1[rule] === c2[rule]\<close>, the same in both files.\<close>

definition checkMatch :: "'i Card \<Rightarrow> 'j Card \<Rightarrow> Rule \<Rightarrow> bool" where
  "checkMatch c1 c2 rule = (card_prop c1 rule = card_prop c2 rule)"

section \<open>Reference cards and card generation\<close>

text \<open>The four reference cards of the DOM version, with the identifiers 1 to 4.\<close>

definition referenceCards :: "nat Card list" where
  "referenceCards =
     [\<lparr>id_card = 1, color = Red, shape = Circle, number = 1, size_card = Small\<rparr>,
      \<lparr>id_card = 2, color = Green, shape = Triangle, number = 2, size_card = Medium\<rparr>,
      \<lparr>id_card = 3, color = Blue, shape = Star, number = 3, size_card = Large\<rparr>,
      \<lparr>id_card = 4, color = Yellow, shape = Square, number = 4, size_card = Medium\<rparr>]"

text \<open>
  The 3D version builds the same four cards with fresh uuids (\<^verbatim>\<open>uuidv4()\<close>); the
  uuids drawn are the arguments.
\<close>

definition referenceCards3D :: "string \<Rightarrow> string \<Rightarrow> string \<Rightarrow> string \<Rightarrow> string Card list" where
  "referenceCards3D u1 u2 u3 u4 =
     [\<lparr>id_card = u1, color = Red, shape = Circle, number = 1, size_card = Small\<rparr>,
      \<lparr>id_card = u2, color = Green, shape = Triangle, number = 2, size_card = Medium\<rparr>,
      \<lparr>id_card = u3, color = Blue, shape = Star, number = 3, size_card = Large\<rparr>,
      \<lparr>id_card = u4, color = Yellow, shape = Square, number = 4, size_card = Medium\<rparr>]"

definition colors :: "Color list" where
  "colors = [Red, Blue, Green, Yellow]"

definition shapes :: "Shape list" where
  "shapes = [Circle, Square, Triangle, Star]"

definition sizes :: "Size list" where
  "sizes = [Small, Medium, Large]"

text \<open>
  \<^verbatim>\<open>generateNewCard\<close>. The random draws are arguments: \<open>kc\<close>, \<open>ks\<close> and \<open>kz\<close> stand
  for \<^verbatim>\<open>Math.floor(Math.random() * xs.length)\<close> on the three arrays and \<open>kn\<close> for
  \<^verbatim>\<open>Math.floor(Math.random() * 4)\<close>, so \<open>kc < 4\<close>, \<open>ks < 4\<close>, \<open>kz < 3\<close> and \<open>kn < 4\<close>;
  \<open>i\<close> is the fresh identifier (\<^verbatim>\<open>Date.now()\<close> or \<^verbatim>\<open>uuidv4()\<close>). The function of the DOM
  version also stores the card as the target; here the callers do that.
\<close>

definition generateNewCard :: "'i \<Rightarrow> nat \<Rightarrow> nat \<Rightarrow> nat \<Rightarrow> nat \<Rightarrow> 'i Card" where
  "generateNewCard i kc ks kn kz =
     \<lparr>id_card = i, color = colors ! kc, shape = shapes ! ks, number = int kn + 1,
      size_card = sizes ! kz\<rparr>"

text \<open>
  The constraint of the 3D version's \<^verbatim>\<open>CardSchema\<close> that the types above do not already
  carry: \<^verbatim>\<open>number: z.number().int().min(1).max(4)\<close>.
\<close>

definition CardSchema :: "'i Card \<Rightarrow> bool" where
  "CardSchema c = (1 \<le> number c \<and> number c \<le> 4)"

section \<open>Statistics and session state\<close>

record GameStats =
  attempts :: nat
  correct :: nat
  perseverativeErrors :: nat
  ruleChanges :: nat
  streak :: nat

datatype Feedback = Correct | Incorrect

definition CARDS_TO_CHANGE_RULE :: nat where
  "CARDS_TO_CHANGE_RULE = 5"

text \<open>
  A pending \<^verbatim>\<open>setTimeout(callback, delay)\<close>: the delay in milliseconds and the callback,
  which is either \<^verbatim>\<open>changeRule\<close> or the arrow function that clears the feedback and
  shows the next card.
\<close>

datatype Callback = ChangeRuleCallback | NextCardCallback

type_synonym Timer = "nat \<times> Callback"

text \<open>
  The state of the DOM component: the five \<^verbatim>\<open>useState\<close> cells. The 3D component keeps
  the two rules in a ref together with the flag \<^verbatim>\<open>isAnimating\<close>; its state is the same
  record extended by that flag.
\<close>

record 'i Game =
  currentRule :: Rule
  previousRule :: "Rule option"
  targetCard :: "'i Card option"
  feedback :: "Feedback option"
  stats :: GameStats

record 'i Game3D = "'i Game" +
  isAnimating :: bool

definition initialStats :: GameStats where
  "initialStats =
     \<lparr>attempts = 0, correct = 0, perseverativeErrors = 0, ruleChanges = 0, streak = 0\<rparr>"

definition initialGame :: "'i Game" where
  "initialGame =
     \<lparr>currentRule = RuleColor, previousRule = None, targetCard = None, feedback = None,
      stats = initialStats\<rparr>"

definition initialGame3D :: "'i Game3D" where
  "initialGame3D =
     \<lparr>currentRule = RuleColor, previousRule = None, targetCard = None, feedback = None,
      stats = initialStats, isAnimating = False\<rparr>"

definition rules :: "Rule list" where
  "rules = [RuleColor, RuleShape, RuleNumber, RuleSize]"

section \<open>The DOM version\<close>

text \<open>
  \<^verbatim>\<open>changeRule\<close>. The argument \<open>k\<close> is the draw
  \<^verbatim>\<open>Math.floor(Math.random() * availableRules.length)\<close>, so \<open>k < 3\<close>.
\<close>

definition changeRule :: "'i Game \<Rightarrow> nat \<Rightarrow> 'i Game" where
  "changeRule s k =
     (let availableRules = filter (\<lambda>r. r \<noteq> currentRule s) rules;
          newRule = availableRules ! k
      in s\<lparr>previousRule := Some (currentRule s),
            currentRule := newRule,
            stats := (stats s)\<lparr>ruleChanges := ruleChanges (stats s) + 1, streak := 0\<rparr>\<rparr>)"

text \<open>
  \<^verbatim>\<open>handleCardClick\<close>: the new state and the timeouts it registers. The guard
  \<^verbatim>\<open>if (!targetCard || feedback) return\<close> leaves the state alone and registers nothing.
\<close>

definition handleCardClick :: "'i Game \<Rightarrow> 'j Card \<Rightarrow> 'i Game \<times> Timer list" where
  "handleCardClick s refCard =
     (case targetCard s of
        None \<Rightarrow> (s, [])
      | Some target \<Rightarrow>
          if feedback s \<noteq> None then (s, [])
          else
            let isMatch = checkMatch target refCard (currentRule s);
                isPerseverative =
                  (\<not> isMatch \<and>
                   (case previousRule s of
                      None \<Rightarrow> False
                    | Some p \<Rightarrow> checkMatch target refCard p));
                prev = stats s
            in (s\<lparr>feedback := Some (if isMatch then Correct else Incorrect),
                   stats :=
                     \<lparr>attempts = attempts prev + 1,
                      correct = correct prev + (if isMatch then 1 else 0),
                      perseverativeErrors =
                        perseverativeErrors prev + (if isPerseverative then 1 else 0),
                      ruleChanges = ruleChanges prev,
                      streak = (if isMatch then streak prev + 1 else 0)\<rparr>\<rparr>,
                [(1000, NextCardCallback)]))"

text \<open>
  The body of the effect that watches the streak, and the effect with its dependency
  array \<^verbatim>\<open>[stats.streak]\<close>: after a render the body runs only when the streak differs
  from its value \<open>dep\<close> at the render before.
\<close>

definition streakWatcher :: "'i Game \<Rightarrow> nat \<Rightarrow> 'i Game" where
  "streakWatcher s k =
     (if 0 < streak (stats s) \<and> streak (stats s) mod CARDS_TO_CHANGE_RULE = 0
      then changeRule s k else s)"

definition afterRender :: "nat \<Rightarrow> 'i Game \<Rightarrow> nat \<Rightarrow> 'i Game" where
  "afterRender dep s k = (if streak (stats s) = dep then s else streakWatcher s k)"

text \<open>The timeout callback of \<^verbatim>\<open>handleCardClick\<close>; \<open>c\<close> is the card generated.\<close>

definition nextCard :: "'i Game \<Rightarrow> 'i Card \<Rightarrow> 'i Game" where
  "nextCard s c = s\<lparr>feedback := None, targetCard := Some c\<rparr>"

fun fire :: "Callback \<Rightarrow> 'i Game \<Rightarrow> nat \<Rightarrow> 'i Card \<Rightarrow> 'i Game" where
  "fire ChangeRuleCallback s k c = changeRule s k"
| "fire NextCardCallback s k c = nextCard s c"

fun runTimers :: "Timer list \<Rightarrow> 'i Game \<Rightarrow> nat \<Rightarrow> 'i Card \<Rightarrow> 'i Game" where
  "runTimers [] s k c = s"
| "runTimers (t # ts) s k c = runTimers ts (fire (snd t) s k c) k c"

text \<open>
  One round of the DOM version: the click, the renders that follow it (the effect runs
  after the render of the click and again after the render that a rule change causes),
  then the timeouts in the order of their delays. The render after the timeout leaves
  the streak as it is, so the effect does not run then.
\<close>

definition round2D :: "'i Game \<Rightarrow> 'j Card \<Rightarrow> nat \<Rightarrow> 'i Card \<Rightarrow> 'i Game" where
  "round2D s refCard k c =
     (let (s1, timers) = handleCardClick s refCard;
          s2 = afterRender (streak (stats s)) s1 k;
          s3 = afterRender (streak (stats s1)) s2 k
      in runTimers (sort_key fst timers) s3 k c)"


section \<open>The 3D version\<close>

definition changeRule3D :: "'i Game3D \<Rightarrow> nat \<Rightarrow> 'i Game3D" where
  "changeRule3D s k =
     (let current = currentRule s;
          available = filter (\<lambda>r. r \<noteq> current) rules;
          newRule = available ! k
      in s\<lparr>previousRule := Some current,
            currentRule := newRule,
            stats := (stats s)\<lparr>ruleChanges := ruleChanges (stats s) + 1, streak := 0\<rparr>\<rparr>)"

text \<open>
  \<^verbatim>\<open>handleCardSelection\<close>. The updater passed to \<^verbatim>\<open>setStats\<close> registers the timeout of
  \<^verbatim>\<open>changeRule\<close> (100 ms) when the new streak is a positive multiple of the threshold;
  the handler registers the timeout of the next card (1000 ms). The timeout of
  \<^verbatim>\<open>changeRule\<close> is a side effect of the updater, so it is registered once for each time
  React runs the updater. The argument \<open>runs\<close> is that number: 1 in a production build
  and outside \<^verbatim>\<open>StrictMode\<close>, 2 under \<^verbatim>\<open>StrictMode\<close> in a development build. The state
  the updater returns is the same at every run.
\<close>

definition handleCardSelection ::
  "nat \<Rightarrow> 'i Game3D \<Rightarrow> 'j Card \<Rightarrow> 'i Game3D \<times> Timer list" where
  "handleCardSelection runs s refCard =
     (case targetCard s of
        None \<Rightarrow> (s, [])
      | Some target \<Rightarrow>
          if isAnimating s then (s, [])
          else
            let isMatch = checkMatch target refCard (currentRule s);
                isPerseverative =
                  (\<not> isMatch \<and>
                   (case previousRule s of
                      None \<Rightarrow> False
                    | Some p \<Rightarrow> checkMatch target refCard p));
                prev = stats s;
                newStreak = (if isMatch then streak prev + 1 else 0)
            in (s\<lparr>isAnimating := True,
                   feedback := Some (if isMatch then Correct else Incorrect),
                   stats :=
                     \<lparr>attempts = attempts prev + 1,
                      correct = correct prev + (if isMatch then 1 else 0),
                      perseverativeErrors =
                        perseverativeErrors prev + (if isPerseverative then 1 else 0),
                      ruleChanges = ruleChanges prev,
                      streak = newStreak\<rparr>\<rparr>,
                concat (replicate runs
                  (if 0 < newStreak \<and> newStreak mod CARDS_TO_CHANGE_RULE = 0
                   then [(100, ChangeRuleCallback)] else []))
                @ [(1000, NextCardCallback)]))"

definition nextCard3D :: "'i Game3D \<Rightarrow> 'i Card \<Rightarrow> 'i Game3D" where
  "nextCard3D s c = s\<lparr>feedback := None, targetCard := Some c, isAnimating := False\<rparr>"

text \<open>
  Every call of \<^verbatim>\<open>changeRule\<close> draws anew: \<open>draw n\<close> is the draw of the call after \<open>n\<close>
  earlier calls in the same round, and the state is paired with that count.
\<close>

fun fire3D ::
  "Callback \<Rightarrow> 'i Game3D \<times> nat \<Rightarrow> (nat \<Rightarrow> nat) \<Rightarrow> 'i Card \<Rightarrow> 'i Game3D \<times> nat" where
  "fire3D ChangeRuleCallback (s, n) draw c = (changeRule3D s (draw n), Suc n)"
| "fire3D NextCardCallback (s, n) draw c = (nextCard3D s c, n)"

fun runTimers3D ::
  "Timer list \<Rightarrow> 'i Game3D \<times> nat \<Rightarrow> (nat \<Rightarrow> nat) \<Rightarrow> 'i Card \<Rightarrow> 'i Game3D \<times> nat" where
  "runTimers3D [] sn draw c = sn"
| "runTimers3D (t # ts) sn draw c = runTimers3D ts (fire3D (snd t) sn draw c) draw c"

text \<open>
  One round of the 3D version: the selection, then the timeouts in the order of their
  delays.
\<close>

definition round3D ::
  "nat \<Rightarrow> 'i Game3D \<Rightarrow> 'j Card \<Rightarrow> (nat \<Rightarrow> nat) \<Rightarrow> 'i Card \<Rightarrow> 'i Game3D" where
  "round3D runs s refCard draw c =
     (let (s1, timers) = handleCardSelection runs s refCard
      in fst (runTimers3D (sort_key fst timers) (s1, 0) draw c))"

text \<open>
  \<^verbatim>\<open>handleCanvasClick\<close>: \<open>intersects\<close> is the list of \<^verbatim>\<open>userData\<close> of the meshes the ray
  hits, nearest first. The meshes offered to the ray caster are the reference meshes.
\<close>

record 'i UserData =
  isReference :: bool
  cardData :: "'i Card"

definition clickableObjects :: "'i Card list \<Rightarrow> 'i UserData list" where
  "clickableObjects cards = map (\<lambda>card. \<lparr>isReference = True, cardData = card\<rparr>) cards"

definition handleCanvasClick ::
  "nat \<Rightarrow> 'i Game3D \<Rightarrow> 'j UserData list \<Rightarrow> 'i Game3D \<times> Timer list" where
  "handleCanvasClick runs s intersects =
     (case intersects of
        [] \<Rightarrow> (s, [])
      | object # _ \<Rightarrow>
          if isReference object then handleCardSelection runs s (cardData object)
          else (s, []))"

section \<open>Sessions as sequences of rounds\<close>

text \<open>
  A round is given by the reference card selected, the draw \<open>k\<close> that a rule change
  would use (in the 3D version the draws of its rule changes) and the next card
  generated. A session runs its rounds one after the other.
\<close>

fun run2D :: "'i Game \<Rightarrow> ('j Card \<times> nat \<times> 'i Card) list \<Rightarrow> 'i Game" where
  "run2D s [] = s"
| "run2D s ((refCard, k, c) # rest) = run2D (round2D s refCard k c) rest"

fun run3D ::
  "nat \<Rightarrow> 'i Game3D \<Rightarrow> ('j Card \<times> (nat \<Rightarrow> nat) \<times> 'i Card) list \<Rightarrow> 'i Game3D" where
  "run3D runs s [] = s"
| "run3D runs s ((refCard, draw, c) # rest) = run3D runs (round3D runs s refCard draw c) rest"

text \<open>
  Every round of the run is evaluated (a target is shown and the session is not locked)
  and its selection matches the target under the rule current at that round.
\<close>

fun allCorrect2D :: "'i Game \<Rightarrow> ('j Card \<times> nat \<times> 'i Card) list \<Rightarrow> bool" where
  "allCorrect2D s [] = True"
| "allCorrect2D s ((refCard, k, c) # rest) =
     ((case targetCard s of
         None \<Rightarrow> False
       | Some target \<Rightarrow> feedback s = None \<and> checkMatch target refCard (currentRule s))
      \<and> allCorrect2D (round2D s refCard k c) rest)"

fun allCorrect3D ::
  "nat \<Rightarrow> 'i Game3D \<Rightarrow> ('j Card \<times> (nat \<Rightarrow> nat) \<times> 'i Card) list \<Rightarrow> bool" where
  "allCorrect3D runs s [] = True"
| "allCorrect3D runs s ((refCard, draw, c) # rest) =
     ((case targetCard s of
         None \<Rightarrow> False
       | Some target \<Rightarrow> \<not> isAnimating s \<and> checkMatch target refCard (currentRule s))
      \<and> allCorrect3D runs (round3D runs s refCard draw c) rest)"

section \<open>Notions used in the properties\<close>

text \<open>
  The mount effect of both components shows the first card: \<open>c\<close> is the card generated.
\<close>

definition mount :: "('i, 'm) Game_scheme \<Rightarrow> 'i Card \<Rightarrow> ('i, 'm) Game_scheme" where
  "mount s c = s\<lparr>targetCard := Some c\<rparr>"

text \<open>The reference cards that match a target under a rule, in the order of the array.\<close>

definition matching :: "'i Card \<Rightarrow> 'j Card list \<Rightarrow> Rule \<Rightarrow> 'j Card list" where
  "matching target refs rule = filter (\<lambda>refCard. checkMatch target refCard rule) refs"

text \<open>None of the four session counters is smaller in \<open>b\<close> than in \<open>a\<close>.\<close>

definition countersLe :: "GameStats \<Rightarrow> GameStats \<Rightarrow> bool" where
  "countersLe a b =
     (attempts a \<le> attempts b \<and> correct a \<le> correct b
      \<and> perseverativeErrors a \<le> perseverativeErrors b \<and> ruleChanges a \<le> ruleChanges b)"

text \<open>
  In the 3D version the guard reads the flag \<^verbatim>\<open>isAnimating\<close>, which is raised and lowered
  together with the feedback: in a consistent state the flag is up exactly while
  feedback is shown.
\<close>

definition consistent3D :: "'i Game3D \<Rightarrow> bool" where
  "consistent3D s = (isAnimating s = (feedback s \<noteq> None))"

text \<open>The state that the two versions have in common.\<close>

definition shared :: "'i Game3D \<Rightarrow> 'i Game" where
  "shared s =
     \<lparr>currentRule = currentRule s, previousRule = previousRule s, targetCard = targetCard s,
      feedback = feedback s, stats = stats s\<rparr>"

text \<open>
  The configuration as the specification words it, for comparison with the constants of
  the code: a threshold \<open>cardsPerRuleChange\<close> and a delay \<open>feedbackDelayMs\<close>, with the
  defaults 5 and 1000, and the rule switch being due when the streak is a positive
  multiple of the configured threshold.
\<close>

record spec_Config =
  cardsPerRuleChange :: nat
  feedbackDelayMs :: nat

definition spec_defaultConfig :: spec_Config where
  "spec_defaultConfig = \<lparr>cardsPerRuleChange = 5, feedbackDelayMs = 1000\<rparr>"

definition spec_switchDue :: "spec_Config \<Rightarrow> nat \<Rightarrow> bool" where
  "spec_switchDue cfg n = (0 < n \<and> n mod cardsPerRuleChange cfg = 0)"

section \<open>Concrete sessions\<close>

text \<open>
  A target card that is red, a target card of size medium, and runs of rounds in which
  the first reference card (the red one) is selected for the red target and every draw
  is 0.
\<close>

definition redCard :: "nat Card" where
  "redCard = \<lparr>id_card = 7, color = Red, shape = Star, number = 2, size_card = Large\<rparr>"

definition mediumCard :: "nat Card" where
  "mediumCard = \<lparr>id_card = 8, color = Blue, shape = Circle, number = 3, size_card = Medium\<rparr>"

definition redRounds :: "nat \<Rightarrow> (nat Card \<times> nat \<times> nat Card) list" where
  "redRounds n = replicate n (referenceCards ! 0, 0, redCard)"

definition redRounds3D :: "nat \<Rightarrow> (nat Card \<times> (nat \<Rightarrow> nat) \<times> nat Card) list" where
  "redRounds3D n = replicate n (referenceCards ! 0, (\<lambda>i. 0), redCard)"

text \<open>
  The sessions reached from a fresh game showing the red target by \<open>n\<close> such rounds; in
  the 3D version the updater runs \<open>runs\<close> times.
\<close>

definition session2D :: "nat \<Rightarrow> nat Game" where
  "session2D n = run2D (mount initialGame redCard) (redRounds n)"

definition session3D :: "nat \<Rightarrow> nat \<Rightarrow> nat Game3D" where
  "session3D runs n = run3D runs (mount initialGame3D redCard) (redRounds3D n)"

section \<open>What one call and one round do\<close>

lemma handleCardClick_blocked:
  "targetCard s = None \<or> feedback s \<noteq> None \<Longrightarrow> handleCardClick s r = (s, [])"
  by (auto simp: handleCardClick_def split: option.splits)

lemma handleCardClick_accepted:
  assumes "targetCard s = Some t" "feedback s = None"
  shows "handleCardClick s r =
     (s\<lparr>feedback := Some (if checkMatch t r (currentRule s) then Correct else Incorrect),
        stats :=
          \<lparr>attempts = attempts (stats s) + 1,
           correct = correct (stats s) + (if checkMatch t r (currentRule s) then 1 else 0),
           perseverativeErrors = perseverativeErrors (stats s) +
             (if \<not> checkMatch t r (currentRule s) \<and>
                 (case previousRule s of None \<Rightarrow> False | Some p \<Rightarrow> checkMatch t r p)
              then 1 else 0),
           ruleChanges = ruleChanges (stats s),
           streak = (if checkMatch t r (currentRule s) then streak (stats s) + 1 else 0)\<rparr>\<rparr>,
      [(1000, NextCardCallback)])"
  using assms by (simp add: handleCardClick_def Let_def)

lemma round2D_blocked:
  "targetCard s = None \<or> feedback s \<noteq> None \<Longrightarrow> round2D s r k c = s"
  by (simp add: round2D_def handleCardClick_blocked afterRender_def)

lemma round2D_accepted:
  assumes "targetCard s = Some t" "feedback s = None"
  shows "round2D s r k c = nextCard (streakWatcher (fst (handleCardClick s r)) k) c"
  using assms
  by (simp add: round2D_def handleCardClick_accepted afterRender_def streakWatcher_def
      changeRule_def Let_def CARDS_TO_CHANGE_RULE_def)

lemma handleCardSelection_blocked:
  "targetCard s = None \<or> isAnimating s \<Longrightarrow> handleCardSelection runs s r = (s, [])"
  by (auto simp: handleCardSelection_def split: option.splits)

lemma handleCardSelection_accepted:
  assumes "targetCard s = Some t" "\<not> isAnimating s"
  shows "handleCardSelection runs s r =
     (s\<lparr>isAnimating := True,
        feedback := Some (if checkMatch t r (currentRule s) then Correct else Incorrect),
        stats :=
          \<lparr>attempts = attempts (stats s) + 1,
           correct = correct (stats s) + (if checkMatch t r (currentRule s) then 1 else 0),
           perseverativeErrors = perseverativeErrors (stats s) +
             (if \<not> checkMatch t r (currentRule s) \<and>
                 (case previousRule s of None \<Rightarrow> False | Some p \<Rightarrow> checkMatch t r p)
              then 1 else 0),
           ruleChanges = ruleChanges (stats s),
           streak = (if checkMatch t r (currentRule s) then streak (stats s) + 1 else 0)\<rparr>\<rparr>,
      concat (replicate runs
        (if checkMatch t r (currentRule s) \<and> (streak (stats s) + 1) mod CARDS_TO_CHANGE_RULE = 0
         then [(100, ChangeRuleCallback)] else []))
      @ [(1000, NextCardCallback)])"
  using assms by (simp add: handleCardSelection_def Let_def)

lemma round3D_blocked:
  "targetCard s = None \<or> isAnimating s \<Longrightarrow> round3D runs s r draw c = s"
  by (simp add: round3D_def handleCardSelection_blocked)

text \<open>When the updater runs once, at most one rule change precedes the next card.\<close>

lemma round3D_accepted:
  assumes "targetCard s = Some t" "\<not> isAnimating s"
  shows "round3D (Suc 0) s r draw c =
     (let s1 = fst (handleCardSelection (Suc 0) s r)
      in nextCard3D (if 0 < streak (stats s1) \<and> streak (stats s1) mod CARDS_TO_CHANGE_RULE = 0
                     then changeRule3D s1 (draw 0) else s1) c)"
  using assms
  by (simp add: round3D_def handleCardSelection_accepted Let_def)

text \<open>When no rule change is due, the number of runs of the updater makes no difference.\<close>

lemma round3D_accepted_not_due:
  assumes "targetCard s = Some t" "\<not> isAnimating s"
    and "\<not> (checkMatch t r (currentRule s) \<and> (streak (stats s) + 1) mod CARDS_TO_CHANGE_RULE = 0)"
  shows "round3D runs s r draw c = nextCard3D (fst (handleCardSelection runs s r)) c"
proof -
  from assms(3)
  have none: "(if checkMatch t r (currentRule s)
                  \<and> (streak (stats s) + 1) mod CARDS_TO_CHANGE_RULE = 0
               then [(100, ChangeRuleCallback)] else []) = ([] :: Timer list)"
    by simp
  show ?thesis
    by (simp only: round3D_def handleCardSelection_accepted[OF assms(1,2)] none) simp
qed

text \<open>What the timeouts of a round leave alone, whatever their number.\<close>

lemma runTimers3D_perseverative:
  "perseverativeErrors (stats (fst (runTimers3D ts sn draw c)))
     = perseverativeErrors (stats (fst sn))"
proof (induction ts arbitrary: sn)
  case Nil
  show ?case by simp
next
  case (Cons t ts)
  obtain s n where sn: "sn = (s, n)" by (cases sn)
  have "perseverativeErrors (stats (fst (fire3D (snd t) sn draw c)))
      = perseverativeErrors (stats (fst sn))"
    by (cases "snd t") (simp_all add: sn changeRule3D_def nextCard3D_def Let_def)
  with Cons.IH[of "fire3D (snd t) sn draw c"] show ?case by simp
qed



section \<open>Runs of correct rounds\<close>



lemma round2D_awaiting:
  assumes "targetCard s = Some t" "feedback s = None"
  shows "targetCard (round2D s r k c) = Some c" and "feedback (round2D s r k c) = None"
  using assms by (simp_all add: round2D_accepted nextCard_def)

















section \<open>The rule engine\<close>

text \<open>
  Claim C2. For all cards \<open>a\<close> and \<open>b\<close> and every rule, \<open>checkMatch a b rule\<close> holds
  exactly when the two cards agree on the attribute the rule names: the colour for the
  colour rule, the shape for the shape rule, the number for the number rule and the
  size for the size rule. The function is defined for every rule and every pair of
  cards, reads no state and has no error case.
\<close>

theorem checkMatch_iff_attribute_equal:
  "checkMatch a b rule =
     (case rule of
        RuleColor \<Rightarrow> color a = color b
      | RuleShape \<Rightarrow> shape a = shape b
      | RuleNumber \<Rightarrow> number a = number b
      | RuleSize \<Rightarrow> size_card a = size_card b)"
  by (cases rule) (simp_all add: checkMatch_def)

section \<open>Rule switching\<close>

text \<open>
  The 3D version registers the timeout of \<^verbatim>\<open>changeRule\<close> inside the updater. When React
  runs the updater twice (\<^verbatim>\<open>StrictMode\<close> in a development build), a fifth correct answer
  registers two timeouts and the rule changes twice: from a fresh session, five correct
  rounds with every draw 0 change the rule to the shape and back to the colour.
\<close>

lemma updater_run_twice_switches_twice:
  "allCorrect3D 2 (session3D 2 0) (redRounds3D 5)
   \<and> ruleChanges (stats (session3D 2 4)) = 0
   \<and> ruleChanges (stats (session3D 2 5)) = 2
   \<and> previousRule (session3D 2 5) = Some RuleShape
   \<and> currentRule (session3D 2 5) = RuleColor
   \<and> streak (stats (session3D 2 5)) = 0"
  by code_simp



section \<open>Incorrect answers and perseverative errors\<close>

lemma round2D_perseverative:
  assumes "targetCard s = Some t" "feedback s = None"
  shows "perseverativeErrors (stats (round2D s r k c)) =
     perseverativeErrors (stats s) +
       (if \<not> checkMatch t r (currentRule s) \<and>
           (case previousRule s of None \<Rightarrow> False | Some p \<Rightarrow> checkMatch t r p)
        then 1 else 0)"
  using assms
  by (simp add: round2D_accepted handleCardClick_accepted nextCard_def streakWatcher_def
      changeRule_def Let_def)

lemma round3D_perseverative:
  assumes "targetCard s = Some t" "\<not> isAnimating s"
  shows "perseverativeErrors (stats (round3D runs s r draw c)) =
     perseverativeErrors (stats s) +
       (if \<not> checkMatch t r (currentRule s) \<and>
           (case previousRule s of None \<Rightarrow> False | Some p \<Rightarrow> checkMatch t r p)
        then 1 else 0)"
proof -
  obtain s1 ts where sel: "handleCardSelection runs s r = (s1, ts)"
    by (cases "handleCardSelection runs s r")
  with handleCardSelection_accepted[OF assms, of runs r]
  have "perseverativeErrors (stats s1) =
     perseverativeErrors (stats s) +
       (if \<not> checkMatch t r (currentRule s) \<and>
           (case previousRule s of None \<Rightarrow> False | Some p \<Rightarrow> checkMatch t r p)
        then 1 else 0)"
    by auto
  with runTimers3D_perseverative[of "sort_key fst ts" "(s1, 0)" draw c]
  show ?thesis by (simp add: round3D_def sel)
qed

lemma round2D_no_previous:
  assumes "previousRule s = None"
  shows "perseverativeErrors (stats (round2D s r k c)) = perseverativeErrors (stats s)"
proof (cases "targetCard s = None \<or> feedback s \<noteq> None")
  case True
  then show ?thesis by (simp add: round2D_blocked)
next
  case False
  then obtain t where "targetCard s = Some t" "feedback s = None" by auto
  from round2D_perseverative[OF this] assms show ?thesis by simp
qed

lemma round3D_no_previous:
  assumes "previousRule s = None"
  shows "perseverativeErrors (stats (round3D runs s r draw c)) = perseverativeErrors (stats s)"
proof (cases "targetCard s = None \<or> isAnimating s")
  case True
  then show ?thesis by (simp add: round3D_blocked)
next
  case False
  then obtain t where "targetCard s = Some t" "\<not> isAnimating s" by auto
  from round3D_perseverative[OF this] assms show ?thesis by simp
qed

lemma round2D_incorrect:
  assumes "targetCard s = Some t" "feedback s = None" "\<not> checkMatch t r (currentRule s)"
  shows "streak (stats (fst (handleCardClick s r))) = 0
       \<and> streakWatcher (fst (handleCardClick s r)) k = fst (handleCardClick s r)
       \<and> streak (stats (round2D s r k c)) = 0
       \<and> currentRule (round2D s r k c) = currentRule s
       \<and> previousRule (round2D s r k c) = previousRule s
       \<and> ruleChanges (stats (round2D s r k c)) = ruleChanges (stats s)"
  using assms
  by (simp add: round2D_accepted handleCardClick_accepted nextCard_def streakWatcher_def)

lemma round3D_incorrect:
  assumes "targetCard s = Some t" "\<not> isAnimating s" "\<not> checkMatch t r (currentRule s)"
  shows "streak (stats (fst (handleCardSelection runs s r))) = 0
       \<and> snd (handleCardSelection runs s r) = [(1000, NextCardCallback)]
       \<and> streak (stats (round3D runs s r draw c)) = 0
       \<and> currentRule (round3D runs s r draw c) = currentRule s
       \<and> previousRule (round3D runs s r draw c) = previousRule s
       \<and> ruleChanges (stats (round3D runs s r draw c)) = ruleChanges (stats s)"
proof -
  from assms(3)
  have "\<not> (checkMatch t r (currentRule s) \<and> (streak (stats s) + 1) mod CARDS_TO_CHANGE_RULE = 0)"
    by simp
  note round = round3D_accepted_not_due[OF assms(1,2) this]
  show ?thesis
    using assms(3)
    by (simp add: round handleCardSelection_accepted[OF assms(1,2)] nextCard3D_def)
qed

text \<open>
  Claim C3. In both versions, an evaluated selection that is incorrect under the current
  rule sets the streak to 0 and causes no rule switch, whatever the streak was: the
  current rule, the previous rule and the counter of rule changes are the same after
  the round. In the DOM version the effect that watches the streak leaves the state as
  the click left it; in the 3D version the only timeout registered is the one of the
  next card, however often the updater runs.
\<close>

theorem incorrect_selection_resets_streak_only:
  "(targetCard s = Some t \<and> feedback s = None \<and> \<not> checkMatch t r (currentRule s)
    \<longrightarrow> streak (stats (fst (handleCardClick s r))) = 0
       \<and> streakWatcher (fst (handleCardClick s r)) k = fst (handleCardClick s r)
       \<and> streak (stats (round2D s r k c)) = 0
       \<and> currentRule (round2D s r k c) = currentRule s
       \<and> previousRule (round2D s r k c) = previousRule s
       \<and> ruleChanges (stats (round2D s r k c)) = ruleChanges (stats s))
   \<and> (targetCard s' = Some t' \<and> \<not> isAnimating s' \<and> \<not> checkMatch t' r' (currentRule s')
    \<longrightarrow> streak (stats (fst (handleCardSelection runs s' r'))) = 0
       \<and> snd (handleCardSelection runs s' r') = [(1000, NextCardCallback)]
       \<and> streak (stats (round3D runs s' r' draw c')) = 0
       \<and> currentRule (round3D runs s' r' draw c') = currentRule s'
       \<and> previousRule (round3D runs s' r' draw c') = previousRule s'
       \<and> ruleChanges (stats (round3D runs s' r' draw c')) = ruleChanges (stats s'))"
proof (rule conjI; rule impI)
  assume "targetCard s = Some t \<and> feedback s = None \<and> \<not> checkMatch t r (currentRule s)"
  then show "streak (stats (fst (handleCardClick s r))) = 0
       \<and> streakWatcher (fst (handleCardClick s r)) k = fst (handleCardClick s r)
       \<and> streak (stats (round2D s r k c)) = 0
       \<and> currentRule (round2D s r k c) = currentRule s
       \<and> previousRule (round2D s r k c) = previousRule s
       \<and> ruleChanges (stats (round2D s r k c)) = ruleChanges (stats s)"
    using round2D_incorrect[of s t r k c] by simp
next
  assume "targetCard s' = Some t' \<and> \<not> isAnimating s' \<and> \<not> checkMatch t' r' (currentRule s')"
  then show "streak (stats (fst (handleCardSelection runs s' r'))) = 0
       \<and> snd (handleCardSelection runs s' r') = [(1000, NextCardCallback)]
       \<and> streak (stats (round3D runs s' r' draw c')) = 0
       \<and> currentRule (round3D runs s' r' draw c') = currentRule s'
       \<and> previousRule (round3D runs s' r' draw c') = previousRule s'
       \<and> ruleChanges (stats (round3D runs s' r' draw c')) = ruleChanges (stats s')"
    using round3D_incorrect[of s' t' r' runs draw c'] by simp
qed

theorem incorrect_selection_resets_streak_only_witness:
  "(targetCard (session2D 3) = Some redCard \<and> feedback (session2D 3) = None
      \<and> \<not> checkMatch redCard (referenceCards ! 1) (currentRule (session2D 3)))
   \<and> (streak (stats (fst (handleCardClick (session2D 3) (referenceCards ! 1)))) = 0
      \<and> streakWatcher (fst (handleCardClick (session2D 3) (referenceCards ! 1))) 0
          = fst (handleCardClick (session2D 3) (referenceCards ! 1))
      \<and> streak (stats (round2D (session2D 3) (referenceCards ! 1) 0 redCard)) = 0
      \<and> currentRule (round2D (session2D 3) (referenceCards ! 1) 0 redCard)
          = currentRule (session2D 3)
      \<and> previousRule (round2D (session2D 3) (referenceCards ! 1) 0 redCard)
          = previousRule (session2D 3)
      \<and> ruleChanges (stats (round2D (session2D 3) (referenceCards ! 1) 0 redCard))
          = ruleChanges (stats (session2D 3)))
   \<and> (targetCard (session3D 1 3) = Some redCard \<and> \<not> isAnimating (session3D 1 3)
      \<and> \<not> checkMatch redCard (referenceCards ! 1) (currentRule (session3D 1 3)))
   \<and> (streak (stats (fst (handleCardSelection 1 (session3D 1 3) (referenceCards ! 1)))) = 0
      \<and> snd (handleCardSelection 1 (session3D 1 3) (referenceCards ! 1))
          = [(1000, NextCardCallback)]
      \<and> streak (stats (round3D 1 (session3D 1 3) (referenceCards ! 1) (\<lambda>i. 0) redCard)) = 0
      \<and> currentRule (round3D 1 (session3D 1 3) (referenceCards ! 1) (\<lambda>i. 0) redCard)
          = currentRule (session3D 1 3)
      \<and> previousRule (round3D 1 (session3D 1 3) (referenceCards ! 1) (\<lambda>i. 0) redCard)
          = previousRule (session3D 1 3)
      \<and> ruleChanges (stats (round3D 1 (session3D 1 3) (referenceCards ! 1) (\<lambda>i. 0) redCard))
          = ruleChanges (stats (session3D 1 3)))"
  (is "?H2 \<and> ?C2 \<and> ?H3 \<and> ?C3")
proof -
  note T = incorrect_selection_resets_streak_only[where s = "session2D 3" and t = redCard
      and r = "referenceCards ! 1" and k = 0 and c = redCard and runs = 1 and s' = "session3D 1 3"
      and t' = redCard and r' = "referenceCards ! 1" and draw = "\<lambda>i. 0" and c' = redCard]
  have h2: ?H2 by code_simp
  have h3: ?H3 by code_simp
  from T h2 have c2: ?C2 by (rule conjunct1[THEN mp])
  from T h3 have c3: ?C3 by (rule conjunct2[THEN mp])
  show ?thesis by (rule conjI[OF h2 conjI[OF c2 conjI[OF h3 c3]]])
qed

text \<open>
  Claim C4. In both versions, an evaluated round adds 1 to the counter of perseverative
  errors exactly when the selection does not match under the current rule and a
  previous rule exists under which it matches; otherwise the counter keeps its value.
  While no previous rule is set, no round changes the counter. In the 3D version this
  holds however often the updater runs.
\<close>

theorem perseverative_errors_increment_iff:
  "(targetCard s = Some t \<and> feedback s = None
    \<longrightarrow> perseverativeErrors (stats (round2D s r k c)) =
         perseverativeErrors (stats s) +
           (if \<not> checkMatch t r (currentRule s) \<and>
               (case previousRule s of None \<Rightarrow> False | Some p \<Rightarrow> checkMatch t r p)
            then 1 else 0))
   \<and> (previousRule s = None
    \<longrightarrow> perseverativeErrors (stats (round2D s r k c)) = perseverativeErrors (stats s))
   \<and> (targetCard s' = Some t' \<and> \<not> isAnimating s'
    \<longrightarrow> perseverativeErrors (stats (round3D runs s' r' draw c')) =
         perseverativeErrors (stats s') +
           (if \<not> checkMatch t' r' (currentRule s') \<and>
               (case previousRule s' of None \<Rightarrow> False | Some p \<Rightarrow> checkMatch t' r' p)
            then 1 else 0))
   \<and> (previousRule s' = None
    \<longrightarrow> perseverativeErrors (stats (round3D runs s' r' draw c')) = perseverativeErrors (stats s'))"
proof (intro conjI impI)
  assume "targetCard s = Some t \<and> feedback s = None"
  then show "perseverativeErrors (stats (round2D s r k c)) =
         perseverativeErrors (stats s) +
           (if \<not> checkMatch t r (currentRule s) \<and>
               (case previousRule s of None \<Rightarrow> False | Some p \<Rightarrow> checkMatch t r p)
            then 1 else 0)"
    using round2D_perseverative[of s t r k c] by simp
next
  assume "previousRule s = None"
  then show "perseverativeErrors (stats (round2D s r k c)) = perseverativeErrors (stats s)"
    by (rule round2D_no_previous)
next
  assume "targetCard s' = Some t' \<and> \<not> isAnimating s'"
  then show "perseverativeErrors (stats (round3D runs s' r' draw c')) =
         perseverativeErrors (stats s') +
           (if \<not> checkMatch t' r' (currentRule s') \<and>
               (case previousRule s' of None \<Rightarrow> False | Some p \<Rightarrow> checkMatch t' r' p)
            then 1 else 0)"
    using round3D_perseverative[of s' t' runs r' draw c'] by simp
next
  assume "previousRule s' = None"
  then show "perseverativeErrors (stats (round3D runs s' r' draw c')) = perseverativeErrors (stats s')"
    by (rule round3D_no_previous)
qed

theorem perseverative_errors_increment_iff_witness:
  "(targetCard (session2D 5) = Some redCard \<and> feedback (session2D 5) = None)
   \<and> perseverativeErrors (stats (round2D (session2D 5) (referenceCards ! 0) 0 redCard)) =
         perseverativeErrors (stats (session2D 5)) +
           (if \<not> checkMatch redCard (referenceCards ! 0) (currentRule (session2D 5)) \<and>
               (case previousRule (session2D 5) of None \<Rightarrow> False
                | Some p \<Rightarrow> checkMatch redCard (referenceCards ! 0) p)
            then 1 else 0)
   \<and> (\<not> checkMatch redCard (referenceCards ! 0) (currentRule (session2D 5)) \<and>
        (case previousRule (session2D 5) of None \<Rightarrow> False
         | Some p \<Rightarrow> checkMatch redCard (referenceCards ! 0) p))
   \<and> previousRule (session2D 0) = None
   \<and> perseverativeErrors (stats (round2D (session2D 0) (referenceCards ! 1) 0 redCard))
        = perseverativeErrors (stats (session2D 0))
   \<and> (targetCard (session3D 1 5) = Some redCard \<and> \<not> isAnimating (session3D 1 5))
   \<and> perseverativeErrors (stats (round3D 1 (session3D 1 5) (referenceCards ! 0) (\<lambda>i. 0) redCard)) =
         perseverativeErrors (stats (session3D 1 5)) +
           (if \<not> checkMatch redCard (referenceCards ! 0) (currentRule (session3D 1 5)) \<and>
               (case previousRule (session3D 1 5) of None \<Rightarrow> False
                | Some p \<Rightarrow> checkMatch redCard (referenceCards ! 0) p)
            then 1 else 0)
   \<and> previousRule (session3D 1 0) = None
   \<and> perseverativeErrors (stats (round3D 1 (session3D 1 0) (referenceCards ! 1) (\<lambda>i. 0) redCard))
        = perseverativeErrors (stats (session3D 1 0))"
  (is "?H1 \<and> ?C1 \<and> ?P \<and> ?H2 \<and> ?C2 \<and> ?H3 \<and> ?C3 \<and> ?H4 \<and> ?C4")
proof -
  note T = perseverative_errors_increment_iff[where runs = 1 and s' = "session3D 1 5"
      and t' = redCard and r' = "referenceCards ! 0" and draw = "\<lambda>i. 0" and c' = redCard and s = "session2D 5"
      and t = redCard and r = "referenceCards ! 0" and k = 0 and c = redCard]
  note U = perseverative_errors_increment_iff[where runs = 1 and s' = "session3D 1 0"
      and t' = redCard and r' = "referenceCards ! 1" and draw = "\<lambda>i. 0" and c' = redCard and s = "session2D 0"
      and t = redCard and r = "referenceCards ! 1" and k = 0 and c = redCard]
  have h1: ?H1 by code_simp
  have p: ?P by code_simp
  have h2: ?H2 by code_simp
  have h3: ?H3 by code_simp
  have h4: ?H4 by code_simp
  from T h1 have c1: ?C1 by (rule conjunct1[THEN mp])
  from U h2 have c2: ?C2 by (rule conjunct2[THEN conjunct1, THEN mp])
  from T h3 have c3: ?C3 by (rule conjunct2[THEN conjunct2, THEN conjunct1, THEN mp])
  from U h4 have c4: ?C4 by (rule conjunct2[THEN conjunct2, THEN conjunct2, THEN mp])
  show ?thesis
    by (rule conjI[OF h1 conjI[OF c1 conjI[OF p conjI[OF h2 conjI[OF c2 conjI[OF h3
          conjI[OF c3 conjI[OF h4 c4]]]]]]]])
qed

section \<open>The lockout\<close>

lemma handleCardClick_locks:
  "targetCard (fst (handleCardClick s r)) = None \<or> feedback (fst (handleCardClick s r)) \<noteq> None"
proof (cases "targetCard s = None \<or> feedback s \<noteq> None")
  case True
  then show ?thesis by (simp add: handleCardClick_blocked)
next
  case False
  then obtain t where "targetCard s = Some t" "feedback s = None" by auto
  then show ?thesis by (simp add: handleCardClick_accepted)
qed

lemma handleCardSelection_locks:
  "targetCard (fst (handleCardSelection runs s r)) = None
   \<or> isAnimating (fst (handleCardSelection runs s r))"
proof (cases "targetCard s = None \<or> isAnimating s")
  case True
  then show ?thesis by (simp add: handleCardSelection_blocked)
next
  case False
  then obtain t where "targetCard s = Some t" "\<not> isAnimating s" by auto
  then show ?thesis by (simp add: handleCardSelection_accepted)
qed

lemma handleCanvasClick_blocked:
  "targetCard s = None \<or> isAnimating s \<Longrightarrow> handleCanvasClick runs s hits = (s, [])"
  by (simp add: handleCanvasClick_def handleCardSelection_blocked split: list.splits)

text \<open>The flag and the feedback stay together from the first render on.\<close>

lemma consistent3D_initial: "consistent3D (mount initialGame3D c)"
  by (simp add: consistent3D_def mount_def initialGame3D_def)

lemma consistent3D_handleCardSelection:
  "consistent3D s \<Longrightarrow> consistent3D (fst (handleCardSelection runs s r))"
  by (cases "targetCard s")
    (auto simp: consistent3D_def handleCardSelection_def Let_def)

lemma consistent3D_changeRule3D: "consistent3D s \<Longrightarrow> consistent3D (changeRule3D s k)"
  by (simp add: consistent3D_def changeRule3D_def Let_def)

lemma consistent3D_nextCard3D: "consistent3D (nextCard3D s c)"
  by (simp add: consistent3D_def nextCard3D_def)

lemma consistent3D_runTimers3D:
  "consistent3D (fst sn) \<Longrightarrow> consistent3D (fst (runTimers3D ts sn draw c))"
proof (induction ts arbitrary: sn)
  case Nil
  then show ?case by simp
next
  case (Cons t ts)
  obtain s n where sn: "sn = (s, n)" by (cases sn)
  with Cons.prems have "consistent3D (fst (fire3D (snd t) sn draw c))"
    by (cases "snd t") (simp_all add: consistent3D_changeRule3D consistent3D_nextCard3D)
  from Cons.IH[OF this] show ?case by simp
qed

lemma consistent3D_round3D:
  assumes "consistent3D s"
  shows "consistent3D (round3D runs s r draw c)"
proof -
  obtain s1 ts where sel: "handleCardSelection runs s r = (s1, ts)"
    by (cases "handleCardSelection runs s r")
  with consistent3D_handleCardSelection[OF assms, of runs r] have "consistent3D s1" by simp
  then have "consistent3D (fst (runTimers3D (sort_key fst ts) (s1, 0) draw c))"
    by (intro consistent3D_runTimers3D) simp
  then show ?thesis by (simp add: round3D_def sel)
qed

lemma consistent3D_run3D: "consistent3D s \<Longrightarrow> consistent3D (run3D runs s rounds)"
  by (induction rounds arbitrary: s) (auto simp: consistent3D_round3D)

text \<open>
  Claim C5. While the session is locked (feedback is shown; in the 3D version the flag
  \<open>isAnimating\<close> is up, which in a consistent state is the same) or no target card is
  shown, a selection returns the state as it is and registers no timeout. A selection
  that follows another one before the timeout of the next card has fired is therefore
  without effect: two selections in a row leave the state that the first one left, so a
  target card is evaluated at most once. In the 3D version this holds however often the
  updater runs.
\<close>

theorem selection_ignored_while_locked:
  "(targetCard s = None \<or> feedback s \<noteq> None \<longrightarrow> handleCardClick s r = (s, []))
   \<and> handleCardClick (fst (handleCardClick s r)) r2 = (fst (handleCardClick s r), [])
   \<and> (targetCard s' = None \<or> isAnimating s' \<longrightarrow> handleCardSelection runs s' r' = (s', []))
   \<and> (consistent3D s' \<and> feedback s' \<noteq> None \<longrightarrow> handleCardSelection runs s' r' = (s', []))
   \<and> (targetCard s' = None \<or> isAnimating s' \<longrightarrow> handleCanvasClick runs s' hits = (s', []))
   \<and> handleCardSelection runs (fst (handleCardSelection runs s' r')) r2'
       = (fst (handleCardSelection runs s' r'), [])"
proof (intro conjI impI)
  assume "targetCard s = None \<or> feedback s \<noteq> None"
  then show "handleCardClick s r = (s, [])" by (rule handleCardClick_blocked)
next
  show "handleCardClick (fst (handleCardClick s r)) r2 = (fst (handleCardClick s r), [])"
    by (rule handleCardClick_blocked) (rule handleCardClick_locks)
next
  assume "targetCard s' = None \<or> isAnimating s'"
  then show "handleCardSelection runs s' r' = (s', [])" by (rule handleCardSelection_blocked)
next
  assume "consistent3D s' \<and> feedback s' \<noteq> None"
  then have "isAnimating s'" by (simp add: consistent3D_def)
  then show "handleCardSelection runs s' r' = (s', [])" by (simp add: handleCardSelection_blocked)
next
  assume "targetCard s' = None \<or> isAnimating s'"
  then show "handleCanvasClick runs s' hits = (s', [])" by (rule handleCanvasClick_blocked)
next
  show "handleCardSelection runs (fst (handleCardSelection runs s' r')) r2'
       = (fst (handleCardSelection runs s' r'), [])"
    by (rule handleCardSelection_blocked) (rule handleCardSelection_locks)
qed

theorem selection_ignored_while_locked_witness:
  "(targetCard (fst (handleCardClick (session2D 0) (referenceCards ! 0))) = None
      \<or> feedback (fst (handleCardClick (session2D 0) (referenceCards ! 0))) \<noteq> None)
   \<and> handleCardClick (fst (handleCardClick (session2D 0) (referenceCards ! 0)))
        (referenceCards ! 1)
       = (fst (handleCardClick (session2D 0) (referenceCards ! 0)), [])
   \<and> (targetCard (fst (handleCardSelection 1 (session3D 1 0) (referenceCards ! 0))) = None
      \<or> isAnimating (fst (handleCardSelection 1 (session3D 1 0) (referenceCards ! 0))))
   \<and> handleCanvasClick 1 (fst (handleCardSelection 1 (session3D 1 0) (referenceCards ! 0)))
        (clickableObjects referenceCards)
       = (fst (handleCardSelection 1 (session3D 1 0) (referenceCards ! 0)), [])
   \<and> (consistent3D (fst (handleCardSelection 1 (session3D 1 0) (referenceCards ! 0)))
      \<and> feedback (fst (handleCardSelection 1 (session3D 1 0) (referenceCards ! 0))) \<noteq> None)
   \<and> handleCardSelection 1 (fst (handleCardSelection 1 (session3D 1 0) (referenceCards ! 0)))
        (referenceCards ! 1)
       = (fst (handleCardSelection 1 (session3D 1 0) (referenceCards ! 0)), [])"
  (is "?H1 \<and> ?C1 \<and> ?H3 \<and> ?C5 \<and> ?H4 \<and> ?C3")
proof -
  note T = selection_ignored_while_locked[where
      s = "fst (handleCardClick (session2D 0) (referenceCards ! 0))" and r = "referenceCards ! 1"
      and runs = 1
      and s' = "fst (handleCardSelection 1 (session3D 1 0) (referenceCards ! 0))"
      and r' = "referenceCards ! 1" and hits = "clickableObjects referenceCards"]
  have h1: ?H1 by code_simp
  have h3: ?H3 by code_simp
  have h4: ?H4 by code_simp
  from T h1 have c1: ?C1 by (rule conjunct1[THEN mp])
  from T h3 have c3: ?C3 by (rule conjunct2[THEN conjunct2, THEN conjunct1, THEN mp])
  from T h4 have c4: ?C3
    by (rule conjunct2[THEN conjunct2, THEN conjunct2, THEN conjunct1, THEN mp])
  from T h3 have c5: ?C5
    by (rule conjunct2[THEN conjunct2, THEN conjunct2, THEN conjunct2, THEN conjunct1, THEN mp])
  show ?thesis by (rule conjI[OF h1 conjI[OF c1 conjI[OF h3 conjI[OF c5 conjI[OF h4 c4]]]]])
qed

section \<open>The counters\<close>

lemma countersLe_refl: "countersLe a a"
  by (simp add: countersLe_def)

lemma countersLe_trans: "countersLe a b \<Longrightarrow> countersLe b c \<Longrightarrow> countersLe a c"
  by (auto simp: countersLe_def)

lemma countersLe_handleCardClick: "countersLe (stats s) (stats (fst (handleCardClick s r)))"
  by (cases "targetCard s") (simp_all add: handleCardClick_def countersLe_def Let_def)

lemma countersLe_changeRule: "countersLe (stats s) (stats (changeRule s k))"
  by (simp add: changeRule_def countersLe_def Let_def)

lemma countersLe_streakWatcher: "countersLe (stats s) (stats (streakWatcher s k))"
  by (simp add: streakWatcher_def countersLe_changeRule countersLe_refl)

lemma countersLe_afterRender: "countersLe (stats s) (stats (afterRender dep s k))"
  by (simp add: afterRender_def countersLe_streakWatcher countersLe_refl)

lemma countersLe_nextCard: "countersLe (stats s) (stats (nextCard s c))"
  by (simp add: nextCard_def countersLe_def)

lemma countersLe_mount: "countersLe (stats s) (stats (mount s c))"
  by (simp add: mount_def countersLe_def)

lemma countersLe_runTimers: "countersLe (stats s) (stats (runTimers ts s k c))"
proof (induction ts arbitrary: s)
  case Nil
  show ?case by (simp add: countersLe_refl)
next
  case (Cons t ts)
  have "countersLe (stats s) (stats (fire (snd t) s k c))"
    by (cases "snd t") (simp_all add: countersLe_changeRule countersLe_nextCard)
  from countersLe_trans[OF this Cons.IH] show ?case by simp
qed

lemma countersLe_round2D: "countersLe (stats s) (stats (round2D s r k c))"
proof -
  obtain s1 ts where click: "handleCardClick s r = (s1, ts)" by (cases "handleCardClick s r")
  define s2 where "s2 = afterRender (streak (stats s)) s1 k"
  define s3 where "s3 = afterRender (streak (stats s1)) s2 k"
  have a: "countersLe (stats s) (stats s1)"
    using countersLe_handleCardClick[of s r] click by simp
  have b: "countersLe (stats s1) (stats s2)"
    unfolding s2_def by (rule countersLe_afterRender)
  have c: "countersLe (stats s2) (stats s3)"
    unfolding s3_def by (rule countersLe_afterRender)
  have d: "countersLe (stats s3) (stats (runTimers (sort_key fst ts) s3 k c))"
    by (rule countersLe_runTimers)
  have "round2D s r k c = runTimers (sort_key fst ts) s3 k c"
    by (simp add: round2D_def click Let_def s2_def s3_def)
  with countersLe_trans[OF a countersLe_trans[OF b countersLe_trans[OF c d]]]
  show ?thesis by simp
qed

lemma countersLe_run2D: "countersLe (stats s) (stats (run2D s rounds))"
proof (induction rounds arbitrary: s)
  case Nil
  show ?case by (simp add: countersLe_refl)
next
  case (Cons x rounds)
  obtain r k c where x: "x = (r, k, c)" by (cases x)
  from countersLe_trans[OF countersLe_round2D Cons.IH] show ?case by (simp add: x)
qed

lemma countersLe_handleCardSelection:
  "countersLe (stats s) (stats (fst (handleCardSelection runs s r)))"
  by (cases "targetCard s") (simp_all add: handleCardSelection_def countersLe_def Let_def)

lemma countersLe_changeRule3D: "countersLe (stats s) (stats (changeRule3D s k))"
  by (simp add: changeRule3D_def countersLe_def Let_def)

lemma countersLe_nextCard3D: "countersLe (stats s) (stats (nextCard3D s c))"
  by (simp add: nextCard3D_def countersLe_def)

lemma countersLe_runTimers3D:
  "countersLe (stats (fst sn)) (stats (fst (runTimers3D ts sn draw c)))"
proof (induction ts arbitrary: sn)
  case Nil
  show ?case by (simp add: countersLe_refl)
next
  case (Cons t ts)
  obtain s n where sn: "sn = (s, n)" by (cases sn)
  have "countersLe (stats (fst sn)) (stats (fst (fire3D (snd t) sn draw c)))"
    by (cases "snd t") (simp_all add: sn countersLe_changeRule3D countersLe_nextCard3D)
  from countersLe_trans[OF this Cons.IH] show ?case by simp
qed

lemma countersLe_round3D: "countersLe (stats s) (stats (round3D runs s r draw c))"
proof -
  obtain s1 ts where sel: "handleCardSelection runs s r = (s1, ts)"
    by (cases "handleCardSelection runs s r")
  have a: "countersLe (stats s) (stats s1)"
    using countersLe_handleCardSelection[of s runs r] sel by simp
  have b: "countersLe (stats s1) (stats (fst (runTimers3D (sort_key fst ts) (s1, 0) draw c)))"
    using countersLe_runTimers3D[of "(s1, 0)" "sort_key fst ts" draw c] by simp
  from countersLe_trans[OF a b] show ?thesis by (simp add: round3D_def sel)
qed

lemma countersLe_run3D: "countersLe (stats s) (stats (run3D runs s rounds))"
proof (induction rounds arbitrary: s)
  case Nil
  show ?case by (simp add: countersLe_refl)
next
  case (Cons x rounds)
  obtain r draw c where x: "x = (r, draw, c)" by (cases x)
  from countersLe_trans[OF countersLe_round3D Cons.IH] show ?case by (simp add: x)
qed

lemma countersLe_handleCanvasClick:
  "countersLe (stats s) (stats (fst (handleCanvasClick runs s hits)))"
  by (cases hits)
    (simp_all add: handleCanvasClick_def countersLe_refl countersLe_handleCardSelection)

text \<open>
  Claim C6. No operation of either version lowers one of the four counters \<open>attempts\<close>,
  \<open>correct\<close>, \<open>perseverativeErrors\<close> and \<open>ruleChanges\<close>: not the evaluation of a
  selection, not a rule change (direct, through the effect on the streak, or through
  its timeout), not the start of a round (the mount effect and the timeout of the next
  card), and so no round and no sequence of rounds, however often the updater of the 3D
  version runs.
\<close>

theorem counters_never_decrease:
  "countersLe (stats s) (stats (fst (handleCardClick s r)))
   \<and> countersLe (stats s) (stats (changeRule s k))
   \<and> countersLe (stats s) (stats (streakWatcher s k))
   \<and> countersLe (stats s) (stats (afterRender dep s k))
   \<and> countersLe (stats s) (stats (nextCard s c))
   \<and> countersLe (stats s) (stats (mount s c))
   \<and> countersLe (stats s) (stats (runTimers ts s k c))
   \<and> countersLe (stats s) (stats (round2D s r k c))
   \<and> countersLe (stats s) (stats (run2D s rounds))
   \<and> countersLe (stats s') (stats (fst (handleCardSelection runs s' r')))
   \<and> countersLe (stats s') (stats (fst (handleCanvasClick runs s' hits)))
   \<and> countersLe (stats s') (stats (changeRule3D s' k'))
   \<and> countersLe (stats s') (stats (nextCard3D s' c'))
   \<and> countersLe (stats s') (stats (mount s' c'))
   \<and> countersLe (stats (fst sn)) (stats (fst (runTimers3D ts' sn draw c')))
   \<and> countersLe (stats s') (stats (round3D runs s' r' draw c'))
   \<and> countersLe (stats s') (stats (run3D runs s' rounds'))"
  by (intro conjI countersLe_handleCardClick countersLe_changeRule countersLe_streakWatcher
      countersLe_afterRender countersLe_nextCard countersLe_mount countersLe_runTimers
      countersLe_round2D countersLe_run2D countersLe_handleCardSelection
      countersLe_handleCanvasClick countersLe_changeRule3D countersLe_nextCard3D
      countersLe_runTimers3D countersLe_round3D countersLe_run3D)

section \<open>The reference cards\<close>

lemma generateNewCard_CardSchema: "kn < 4 \<Longrightarrow> CardSchema (generateNewCard i kc ks kn kz)"
  by (simp add: CardSchema_def generateNewCard_def)

lemma number_cases:
  assumes "CardSchema t"
  shows "number t = 1 \<or> number t = 2 \<or> number t = 3 \<or> number t = 4"
  using assms unfolding CardSchema_def by arith

lemma matching_color: "length (matching t referenceCards RuleColor) = 1"
  by (cases "color t") (simp_all add: matching_def referenceCards_def checkMatch_def)

lemma matching_shape: "length (matching t referenceCards RuleShape) = 1"
  by (cases "shape t") (simp_all add: matching_def referenceCards_def checkMatch_def)

lemma matching_number:
  assumes "CardSchema t"
  shows "length (matching t referenceCards RuleNumber) = 1"
  using number_cases[OF assms]
  by (auto simp: matching_def referenceCards_def checkMatch_def)

lemma matching_size_medium:
  assumes "size_card t = Medium"
  shows "matching t referenceCards RuleSize =
     [\<lparr>id_card = 2, color = Green, shape = Triangle, number = 2, size_card = Medium\<rparr>,
      \<lparr>id_card = 4, color = Yellow, shape = Square, number = 4, size_card = Medium\<rparr>]"
  using assms by (simp add: matching_def referenceCards_def checkMatch_def)

lemma matching_size_other:
  assumes "size_card t \<noteq> Medium"
  shows "length (matching t referenceCards RuleSize) = 1"
  using assms by (cases "size_card t") (simp_all add: matching_def referenceCards_def checkMatch_def)

lemma matching3D_color: "length (matching t (referenceCards3D u1 u2 u3 u4) RuleColor) = 1"
  by (cases "color t") (simp_all add: matching_def referenceCards3D_def checkMatch_def)

lemma matching3D_shape: "length (matching t (referenceCards3D u1 u2 u3 u4) RuleShape) = 1"
  by (cases "shape t") (simp_all add: matching_def referenceCards3D_def checkMatch_def)

lemma matching3D_number:
  assumes "CardSchema t"
  shows "length (matching t (referenceCards3D u1 u2 u3 u4) RuleNumber) = 1"
  using number_cases[OF assms]
  by (auto simp: matching_def referenceCards3D_def checkMatch_def)

lemma matching3D_size_medium:
  assumes "size_card t = Medium"
  shows "matching t (referenceCards3D u1 u2 u3 u4) RuleSize =
     [\<lparr>id_card = u2, color = Green, shape = Triangle, number = 2, size_card = Medium\<rparr>,
      \<lparr>id_card = u4, color = Yellow, shape = Square, number = 4, size_card = Medium\<rparr>]"
  using assms by (simp add: matching_def referenceCards3D_def checkMatch_def)

lemma matching3D_size_other:
  assumes "size_card t \<noteq> Medium"
  shows "length (matching t (referenceCards3D u1 u2 u3 u4) RuleSize) = 1"
  using assms
  by (cases "size_card t") (simp_all add: matching_def referenceCards3D_def checkMatch_def)

text \<open>
  Claim C7. For the four reference cards of either version, every target card matches
  exactly one reference card under the colour rule and under the shape rule, and every
  target card whose number lies between 1 and 4 matches exactly one under the number
  rule. Under the size rule a target card of size medium matches exactly two reference
  cards, the green triangle with number 2 and the yellow square with number 4, which
  are both of size medium; a target card of another size matches exactly one.
\<close>

theorem reference_cards_one_match_except_size:
  "length (matching t referenceCards RuleColor) = 1
   \<and> length (matching t referenceCards RuleShape) = 1
   \<and> (CardSchema t \<longrightarrow> length (matching t referenceCards RuleNumber) = 1)
   \<and> (size_card t = Medium \<longrightarrow>
        matching t referenceCards RuleSize =
          [\<lparr>id_card = 2, color = Green, shape = Triangle, number = 2, size_card = Medium\<rparr>,
           \<lparr>id_card = 4, color = Yellow, shape = Square, number = 4, size_card = Medium\<rparr>])
   \<and> (size_card t \<noteq> Medium \<longrightarrow> length (matching t referenceCards RuleSize) = 1)
   \<and> length (matching t (referenceCards3D u1 u2 u3 u4) RuleColor) = 1
   \<and> length (matching t (referenceCards3D u1 u2 u3 u4) RuleShape) = 1
   \<and> (CardSchema t \<longrightarrow> length (matching t (referenceCards3D u1 u2 u3 u4) RuleNumber) = 1)
   \<and> (size_card t = Medium \<longrightarrow>
        matching t (referenceCards3D u1 u2 u3 u4) RuleSize =
          [\<lparr>id_card = u2, color = Green, shape = Triangle, number = 2, size_card = Medium\<rparr>,
           \<lparr>id_card = u4, color = Yellow, shape = Square, number = 4, size_card = Medium\<rparr>])
   \<and> (size_card t \<noteq> Medium \<longrightarrow>
        length (matching t (referenceCards3D u1 u2 u3 u4) RuleSize) = 1)"
  by (intro conjI impI matching_color matching_shape matching_number matching_size_medium
      matching_size_other matching3D_color matching3D_shape matching3D_number
      matching3D_size_medium matching3D_size_other)

theorem reference_cards_one_match_except_size_witness:
  "CardSchema mediumCard
   \<and> length (matching mediumCard referenceCards RuleNumber) = 1
   \<and> size_card mediumCard = Medium
   \<and> matching mediumCard referenceCards RuleSize =
        [\<lparr>id_card = 2, color = Green, shape = Triangle, number = 2, size_card = Medium\<rparr>,
         \<lparr>id_card = 4, color = Yellow, shape = Square, number = 4, size_card = Medium\<rparr>]
   \<and> size_card redCard \<noteq> Medium
   \<and> length (matching redCard referenceCards RuleSize) = 1
   \<and> length (matching mediumCard (referenceCards3D ''a'' ''b'' ''c'' ''d'') RuleNumber) = 1
   \<and> matching mediumCard (referenceCards3D ''a'' ''b'' ''c'' ''d'') RuleSize =
        [\<lparr>id_card = ''b'', color = Green, shape = Triangle, number = 2, size_card = Medium\<rparr>,
         \<lparr>id_card = ''d'', color = Yellow, shape = Square, number = 4, size_card = Medium\<rparr>]
   \<and> length (matching redCard (referenceCards3D ''a'' ''b'' ''c'' ''d'') RuleSize) = 1"
  (is "?H1 \<and> ?C1 \<and> ?H2 \<and> ?C2 \<and> ?H3 \<and> ?C3 \<and> ?C4 \<and> ?C5 \<and> ?C6")
proof -
  note T = reference_cards_one_match_except_size[where t = mediumCard and ?u1.0 = "''a''"
      and ?u2.0 = "''b''" and ?u3.0 = "''c''" and ?u4.0 = "''d''"]
  note U = reference_cards_one_match_except_size[where t = redCard and ?u1.0 = "''a''"
      and ?u2.0 = "''b''" and ?u3.0 = "''c''" and ?u4.0 = "''d''"]
  have h1: ?H1 by code_simp
  have h2: ?H2 by code_simp
  have h3: ?H3 by code_simp
  from T h1 have c1: ?C1
    by (rule conjunct2[THEN conjunct2, THEN conjunct1, THEN mp])
  from T h2 have c2: ?C2
    by (rule conjunct2[THEN conjunct2, THEN conjunct2, THEN conjunct1, THEN mp])
  from U h3 have c3: ?C3
    by (rule conjunct2[THEN conjunct2, THEN conjunct2, THEN conjunct2, THEN conjunct1, THEN mp])
  from T h1 have c4: ?C4
    by (rule conjunct2[THEN conjunct2, THEN conjunct2, THEN conjunct2, THEN conjunct2,
          THEN conjunct2, THEN conjunct2, THEN conjunct1, THEN mp])
  from T h2 have c5: ?C5
    by (rule conjunct2[THEN conjunct2, THEN conjunct2, THEN conjunct2, THEN conjunct2,
          THEN conjunct2, THEN conjunct2, THEN conjunct2, THEN conjunct1, THEN mp])
  from U h3 have c6: ?C6
    by (rule conjunct2[THEN conjunct2, THEN conjunct2, THEN conjunct2, THEN conjunct2,
          THEN conjunct2, THEN conjunct2, THEN conjunct2, THEN conjunct2, THEN mp])
  show ?thesis
    by (rule conjI[OF h1 conjI[OF c1 conjI[OF h2 conjI[OF c2 conjI[OF h3 conjI[OF c3
          conjI[OF c4 conjI[OF c5 c6]]]]]]]])
qed

section \<open>Selections outside the reference set\<close>








section \<open>Threshold and delay\<close>

lemma streakWatcher_default:
  "streakWatcher s k =
     (if spec_switchDue spec_defaultConfig (streak (stats s)) then changeRule s k else s)"
  by (simp add: streakWatcher_def spec_switchDue_def spec_defaultConfig_def
      CARDS_TO_CHANGE_RULE_def)

lemma handleCardClick_delay:
  "(d, cb) \<in> set (snd (handleCardClick s r))
   \<Longrightarrow> cb = NextCardCallback \<and> d = feedbackDelayMs spec_defaultConfig"
  by (cases "targetCard s")
    (auto simp: handleCardClick_def Let_def spec_defaultConfig_def split: if_splits)

lemma handleCardSelection_delay:
  "(d, NextCardCallback) \<in> set (snd (handleCardSelection runs s r))
   \<Longrightarrow> d = feedbackDelayMs spec_defaultConfig"
  by (cases "targetCard s")
    (auto simp: handleCardSelection_def Let_def spec_defaultConfig_def split: if_splits)

lemma handleCardSelection_switch_timer:
  assumes "targetCard s = Some t" "\<not> isAnimating s" "0 < runs"
  shows "((d, ChangeRuleCallback) \<in> set (snd (handleCardSelection runs s r)))
       = (d = 100 \<and> spec_switchDue spec_defaultConfig
            (streak (stats (fst (handleCardSelection runs s r)))))"
  using assms
  by (auto simp: handleCardSelection_accepted spec_switchDue_def spec_defaultConfig_def
      CARDS_TO_CHANGE_RULE_def)

text \<open>
  Claim C9, as stated: the threshold is the one supplied at construction. The
  components take no configuration: the threshold is the constant 5. A session for
  which the threshold 3 had been configured would have to switch at a streak of 3; the
  code, after three correct rounds of a fresh session, has a streak of 3, has changed
  no rule, and its effect on the streak leaves the state as it is.
\<close>

theorem configured_threshold_ignored:
  "spec_switchDue \<lparr>cardsPerRuleChange = 3, feedbackDelayMs = 1000\<rparr> (streak (stats (session2D 3)))
   \<and> allCorrect2D (session2D 0) (redRounds 3)
   \<and> streak (stats (session2D 3)) = 3
   \<and> ruleChanges (stats (session2D 3)) = 0
   \<and> currentRule (session2D 3) = RuleColor
   \<and> streakWatcher (session2D 3) 0 = session2D 3
   \<and> spec_switchDue \<lparr>cardsPerRuleChange = 3, feedbackDelayMs = 1000\<rparr>
        (streak (stats (session3D 1 3)))
   \<and> allCorrect3D 1 (session3D 1 0) (redRounds3D 3)
   \<and> streak (stats (session3D 1 3)) = 3
   \<and> ruleChanges (stats (session3D 1 3)) = 0
   \<and> currentRule (session3D 1 3) = RuleColor"
  by code_simp

text \<open>
  Claim C9, amended. The threshold and the feedback delay are constants of the code,
  equal to the defaults 5 and 1000 ms of the specification's configuration, and every
  rule switch and every lockout uses them: the effect of the DOM version changes the
  rule exactly when the streak is a positive multiple of 5, the 3D version registers
  the timeout of the rule change exactly when the new streak is one (for every positive
  number of runs of the updater), and every timeout of the next card has the delay 1000.
\<close>

theorem threshold_and_delay_are_the_defaults:
  "CARDS_TO_CHANGE_RULE = cardsPerRuleChange spec_defaultConfig
   \<and> streakWatcher s k =
       (if spec_switchDue spec_defaultConfig (streak (stats s)) then changeRule s k else s)
   \<and> ((d, cb) \<in> set (snd (handleCardClick s r))
      \<longrightarrow> cb = NextCardCallback \<and> d = feedbackDelayMs spec_defaultConfig)
   \<and> ((d', NextCardCallback) \<in> set (snd (handleCardSelection runs s' r'))
      \<longrightarrow> d' = feedbackDelayMs spec_defaultConfig)
   \<and> (targetCard s' = Some t' \<and> \<not> isAnimating s' \<and> 0 < runs
      \<longrightarrow> ((d', ChangeRuleCallback) \<in> set (snd (handleCardSelection runs s' r')))
          = (d' = 100 \<and> spec_switchDue spec_defaultConfig
               (streak (stats (fst (handleCardSelection runs s' r'))))))"
proof (intro conjI impI)
  show "CARDS_TO_CHANGE_RULE = cardsPerRuleChange spec_defaultConfig"
    by (simp add: CARDS_TO_CHANGE_RULE_def spec_defaultConfig_def)
next
  show "streakWatcher s k =
       (if spec_switchDue spec_defaultConfig (streak (stats s)) then changeRule s k else s)"
    by (rule streakWatcher_default)
next
  assume "(d, cb) \<in> set (snd (handleCardClick s r))"
  then show "cb = NextCardCallback" by (simp add: handleCardClick_delay)
next
  assume "(d, cb) \<in> set (snd (handleCardClick s r))"
  then show "d = feedbackDelayMs spec_defaultConfig" using handleCardClick_delay by blast
next
  assume "(d', NextCardCallback) \<in> set (snd (handleCardSelection runs s' r'))"
  then show "d' = feedbackDelayMs spec_defaultConfig" by (rule handleCardSelection_delay)
next
  assume "targetCard s' = Some t' \<and> \<not> isAnimating s' \<and> 0 < runs"
  then show "((d', ChangeRuleCallback) \<in> set (snd (handleCardSelection runs s' r')))
          = (d' = 100 \<and> spec_switchDue spec_defaultConfig
               (streak (stats (fst (handleCardSelection runs s' r')))))"
    using handleCardSelection_switch_timer[of s' t' runs d' r'] by simp
qed

theorem threshold_and_delay_are_the_defaults_witness:
  "(1000, NextCardCallback) \<in> set (snd (handleCardClick (session2D 0) (referenceCards ! 0)))
   \<and> (NextCardCallback = NextCardCallback \<and> (1000::nat) = feedbackDelayMs spec_defaultConfig)
   \<and> (1000, NextCardCallback) \<in> set (snd (handleCardSelection 1 (session3D 1 0) (referenceCards ! 0)))
   \<and> (1000::nat) = feedbackDelayMs spec_defaultConfig
   \<and> (targetCard (session3D 1 4) = Some redCard \<and> \<not> isAnimating (session3D 1 4)
      \<and> (0::nat) < 1)
   \<and> ((100, ChangeRuleCallback) \<in> set (snd (handleCardSelection 1 (session3D 1 4) (referenceCards ! 0))))
       = ((100::nat) = 100 \<and> spec_switchDue spec_defaultConfig
            (streak (stats (fst (handleCardSelection 1 (session3D 1 4) (referenceCards ! 0))))))
   \<and> (100, ChangeRuleCallback) \<in> set (snd (handleCardSelection 1 (session3D 1 4) (referenceCards ! 0)))"
  (is "?H1 \<and> ?C1 \<and> ?H2 \<and> ?C2 \<and> ?H3 \<and> ?C3 \<and> ?X")
proof -
  note T = threshold_and_delay_are_the_defaults[where s = "session2D 0"
      and r = "referenceCards ! 0" and d = 1000 and cb = NextCardCallback
      and runs = 1 and s' = "session3D 1 0" and r' = "referenceCards ! 0" and d' = 1000]
  note U = threshold_and_delay_are_the_defaults[where runs = 1 and s' = "session3D 1 4" and t' = redCard
      and r' = "referenceCards ! 0" and d' = 100]
  have h1: ?H1 by code_simp
  have h2: ?H2 by code_simp
  have h3: ?H3 by code_simp
  have x: ?X by code_simp
  from T h1 have c1: ?C1 by (rule conjunct2[THEN conjunct2, THEN conjunct1, THEN mp])
  from T h2 have c2: ?C2
    by (rule conjunct2[THEN conjunct2, THEN conjunct2, THEN conjunct1, THEN mp])
  from U h3 have c3: ?C3
    by (rule conjunct2[THEN conjunct2, THEN conjunct2, THEN conjunct2, THEN mp])
  show ?thesis
    by (rule conjI[OF h1 conjI[OF c1 conjI[OF h2 conjI[OF c2 conjI[OF h3 conjI[OF c3 x]]]]]])
qed

section \<open>The two versions side by side\<close>

lemma shared_handlers:
  assumes "consistent3D s"
  shows "shared (fst (handleCardSelection runs s r)) = fst (handleCardClick (shared s) r)"
proof (cases "targetCard s = None \<or> isAnimating s")
  case True
  with assms have "targetCard (shared s) = None \<or> feedback (shared s) \<noteq> None"
    by (auto simp: consistent3D_def shared_def)
  with True show ?thesis by (simp add: handleCardSelection_blocked handleCardClick_blocked)
next
  case False
  then obtain t where t: "targetCard s = Some t" "\<not> isAnimating s" by auto
  with assms have t2: "targetCard (shared s) = Some t" "feedback (shared s) = None"
    by (auto simp: consistent3D_def shared_def)
  show ?thesis
    by (simp add: handleCardSelection_accepted[OF t] handleCardClick_accepted[OF t2])
      (simp add: shared_def)
qed

lemma shared_round:
  assumes "consistent3D s"
  shows "shared (round3D (Suc 0) s r draw c) = round2D (shared s) r (draw 0) c"
proof (cases "targetCard s = None \<or> isAnimating s")
  case True
  with assms have "targetCard (shared s) = None \<or> feedback (shared s) \<noteq> None"
    by (auto simp: consistent3D_def shared_def)
  with True show ?thesis by (simp add: round3D_blocked round2D_blocked)
next
  case False
  then obtain t where t: "targetCard s = Some t" "\<not> isAnimating s" by auto
  with assms have t2: "targetCard (shared s) = Some t" "feedback (shared s) = None"
    by (auto simp: consistent3D_def shared_def)
  show ?thesis
    by (simp add: round3D_accepted[OF t] round2D_accepted[OF t2]
        handleCardSelection_accepted[OF t] handleCardClick_accepted[OF t2] nextCard_def
        nextCard3D_def streakWatcher_def changeRule_def changeRule3D_def Let_def)
      (simp add: shared_def)
qed

lemma shared_trigger:
  assumes "consistent3D s" "targetCard s = Some t" "\<not> isAnimating s" "0 < runs"
  shows "((100, ChangeRuleCallback) \<in> set (snd (handleCardSelection runs s r)))
       = (0 < streak (stats (fst (handleCardClick (shared s) r)))
          \<and> streak (stats (fst (handleCardClick (shared s) r))) mod 5 = 0)"
    and "afterRender (streak (stats (shared s))) (fst (handleCardClick (shared s) r)) k
       = (if 0 < streak (stats (fst (handleCardClick (shared s) r)))
             \<and> streak (stats (fst (handleCardClick (shared s) r))) mod 5 = 0
          then changeRule (fst (handleCardClick (shared s) r)) k
          else fst (handleCardClick (shared s) r))"
proof -
  from assms have t2: "targetCard (shared s) = Some t" "feedback (shared s) = None"
    by (auto simp: consistent3D_def shared_def)
  show "((100, ChangeRuleCallback) \<in> set (snd (handleCardSelection runs s r)))
       = (0 < streak (stats (fst (handleCardClick (shared s) r)))
          \<and> streak (stats (fst (handleCardClick (shared s) r))) mod 5 = 0)"
    using assms(2,3,4) t2
    by (simp add: handleCardSelection_accepted handleCardClick_accepted
        CARDS_TO_CHANGE_RULE_def shared_def)
  show "afterRender (streak (stats (shared s))) (fst (handleCardClick (shared s) r)) k
       = (if 0 < streak (stats (fst (handleCardClick (shared s) r)))
             \<and> streak (stats (fst (handleCardClick (shared s) r))) mod 5 = 0
          then changeRule (fst (handleCardClick (shared s) r)) k
          else fst (handleCardClick (shared s) r))"
    using t2
    by (simp add: handleCardClick_accepted afterRender_def streakWatcher_def
        CARDS_TO_CHANGE_RULE_def)
qed

text \<open>
  When the updater runs twice, the fifth correct answer of a fresh session changes the
  rule twice in the 3D version and once in the DOM version, so the sessions differ after
  that round.
\<close>

lemma versions_differ_when_updater_runs_twice:
  "shared (session3D 2 4) = session2D 4
   \<and> currentRule (round3D 2 (session3D 2 4) (referenceCards ! 0) (\<lambda>i. 0) redCard) = RuleColor
   \<and> ruleChanges (stats (round3D 2 (session3D 2 4) (referenceCards ! 0) (\<lambda>i. 0) redCard)) = 2
   \<and> currentRule (round2D (session2D 4) (referenceCards ! 0) 0 redCard) = RuleShape
   \<and> ruleChanges (stats (round2D (session2D 4) (referenceCards ! 0) 0 redCard)) = 1"
  by code_simp

text \<open>
  Claim C10. Let the 3D session be consistent and await a selection, and let the DOM
  session have the same target card, rules, feedback and statistics. Then for the same
  selected card the two handlers leave the same feedback and the same statistics, and
  the 3D handler registers the timeout of the rule change exactly when the new streak is
  a positive multiple of 5, which is exactly when the effect of the DOM version changes
  the rule; this holds for every positive number of runs of the updater. When the
  updater runs once (\<open>runs = 1\<close>), the two sessions, given the same draw and the same
  next card, agree again after the round.
\<close>

theorem versions_agree_on_a_round:
  "consistent3D s \<and> targetCard s = Some t \<and> \<not> isAnimating s \<and> 0 < runs \<longrightarrow>
     feedback (fst (handleCardSelection runs s r))
       = feedback (fst (handleCardClick (shared s) r))
   \<and> stats (fst (handleCardSelection runs s r)) = stats (fst (handleCardClick (shared s) r))
   \<and> shared (fst (handleCardSelection runs s r)) = fst (handleCardClick (shared s) r)
   \<and> ((100, ChangeRuleCallback) \<in> set (snd (handleCardSelection runs s r)))
       = (0 < streak (stats (fst (handleCardClick (shared s) r)))
          \<and> streak (stats (fst (handleCardClick (shared s) r))) mod 5 = 0)
   \<and> afterRender (streak (stats (shared s))) (fst (handleCardClick (shared s) r)) k
       = (if 0 < streak (stats (fst (handleCardClick (shared s) r)))
             \<and> streak (stats (fst (handleCardClick (shared s) r))) mod 5 = 0
          then changeRule (fst (handleCardClick (shared s) r)) k
          else fst (handleCardClick (shared s) r))
   \<and> (runs = 1 \<longrightarrow> shared (round3D runs s r draw c) = round2D (shared s) r (draw 0) c)"
proof (rule impI)
  assume a: "consistent3D s \<and> targetCard s = Some t \<and> \<not> isAnimating s \<and> 0 < runs"
  then have c: "consistent3D s" and t: "targetCard s = Some t" and n: "\<not> isAnimating s"
    and p: "0 < runs"
    by simp_all
  have sh: "shared (fst (handleCardSelection runs s r)) = fst (handleCardClick (shared s) r)"
    by (rule shared_handlers[OF c])
  have f: "feedback (fst (handleCardSelection runs s r))
      = feedback (fst (handleCardClick (shared s) r))"
    using arg_cong[OF sh, of feedback] by (simp add: shared_def)
  have st: "stats (fst (handleCardSelection runs s r))
      = stats (fst (handleCardClick (shared s) r))"
    using arg_cong[OF sh, of stats] by (simp add: shared_def)
  have rd: "runs = 1 \<longrightarrow> shared (round3D runs s r draw c) = round2D (shared s) r (draw 0) c"
    using shared_round[OF c, of r draw c] by simp
  from f st sh shared_trigger(1)[OF c t n p, of r] shared_trigger(2)[OF c t n p, of r k] rd
  show "feedback (fst (handleCardSelection runs s r))
       = feedback (fst (handleCardClick (shared s) r))
   \<and> stats (fst (handleCardSelection runs s r)) = stats (fst (handleCardClick (shared s) r))
   \<and> shared (fst (handleCardSelection runs s r)) = fst (handleCardClick (shared s) r)
   \<and> ((100, ChangeRuleCallback) \<in> set (snd (handleCardSelection runs s r)))
       = (0 < streak (stats (fst (handleCardClick (shared s) r)))
          \<and> streak (stats (fst (handleCardClick (shared s) r))) mod 5 = 0)
   \<and> afterRender (streak (stats (shared s))) (fst (handleCardClick (shared s) r)) k
       = (if 0 < streak (stats (fst (handleCardClick (shared s) r)))
             \<and> streak (stats (fst (handleCardClick (shared s) r))) mod 5 = 0
          then changeRule (fst (handleCardClick (shared s) r)) k
          else fst (handleCardClick (shared s) r))
   \<and> (runs = 1 \<longrightarrow> shared (round3D runs s r draw c) = round2D (shared s) r (draw 0) c)"
    by (intro conjI)
qed

theorem versions_agree_on_a_round_witness:
  "(consistent3D (session3D 1 4) \<and> targetCard (session3D 1 4) = Some redCard
      \<and> \<not> isAnimating (session3D 1 4) \<and> (0::nat) < 1)
   \<and> feedback (fst (handleCardSelection 1 (session3D 1 4) (referenceCards ! 0)))
        = feedback (fst (handleCardClick (shared (session3D 1 4)) (referenceCards ! 0)))
   \<and> stats (fst (handleCardSelection 1 (session3D 1 4) (referenceCards ! 0)))
        = stats (fst (handleCardClick (shared (session3D 1 4)) (referenceCards ! 0)))
   \<and> ((100, ChangeRuleCallback)
          \<in> set (snd (handleCardSelection 1 (session3D 1 4) (referenceCards ! 0))))
        = (0 < streak (stats (fst (handleCardClick (shared (session3D 1 4)) (referenceCards ! 0))))
           \<and> streak (stats (fst (handleCardClick (shared (session3D 1 4)) (referenceCards ! 0))))
               mod 5 = 0)
   \<and> (1::nat) = 1
   \<and> shared (round3D 1 (session3D 1 4) (referenceCards ! 0) (\<lambda>i. 0) redCard)
        = round2D (shared (session3D 1 4)) (referenceCards ! 0) 0 redCard
   \<and> shared (session3D 1 4) = session2D 4
   \<and> (100, ChangeRuleCallback)
        \<in> set (snd (handleCardSelection 1 (session3D 1 4) (referenceCards ! 0)))"
  (is "?H \<and> ?F \<and> ?S \<and> ?G \<and> ?H1 \<and> ?R \<and> ?X \<and> ?Y")
proof -
  note T = versions_agree_on_a_round[where s = "session3D 1 4" and t = redCard
      and runs = 1 and r = "referenceCards ! 0" and k = 0 and draw = "\<lambda>i. 0"
      and c = redCard]
  have h: ?H by code_simp
  have h1: ?H1 by simp
  have x: ?X by code_simp
  have y: ?Y by code_simp
  from T h have all: "?F \<and> ?S
      \<and> shared (fst (handleCardSelection 1 (session3D 1 4) (referenceCards ! 0)))
          = fst (handleCardClick (shared (session3D 1 4)) (referenceCards ! 0))
      \<and> ?G
      \<and> afterRender (streak (stats (shared (session3D 1 4))))
            (fst (handleCardClick (shared (session3D 1 4)) (referenceCards ! 0))) 0
          = (if 0 < streak (stats (fst (handleCardClick (shared (session3D 1 4))
                  (referenceCards ! 0))))
                \<and> streak (stats (fst (handleCardClick (shared (session3D 1 4))
                     (referenceCards ! 0)))) mod 5 = 0
             then changeRule (fst (handleCardClick (shared (session3D 1 4))
                    (referenceCards ! 0))) 0
             else fst (handleCardClick (shared (session3D 1 4)) (referenceCards ! 0)))
      \<and> (?H1 \<longrightarrow> ?R)"
    by (rule mp)
  from all have f: ?F by (rule conjunct1)
  from all have s: ?S by (rule conjunct2[THEN conjunct1])
  from all have g: ?G by (rule conjunct2[THEN conjunct2, THEN conjunct2, THEN conjunct1])
  from all h1 have r: ?R
    by (rule conjunct2[THEN conjunct2, THEN conjunct2, THEN conjunct2, THEN conjunct2, THEN mp])
  show ?thesis
    by (rule conjI[OF h conjI[OF f conjI[OF s conjI[OF g conjI[OF h1 conjI[OF r
          conjI[OF x y]]]]]]])
qed

end
